theory Spec2Isabelle
  imports Main "HOL-Library.Word"
begin

unbundle bit_operations_syntax

section \<open>Memory, host byte order and the GUID structure\<close>

text \<open>
  \<^verbatim>\<open>pal_guid.cpp\<close> works on raw memory: \<^verbatim>\<open>CoreLibNative_CreateGuid\<close> receives a
  pointer, lets \<^verbatim>\<open>uuid_generate_random\<close> fill the sixteen bytes behind it, and then
  reads and writes the first three structure fields as native integers. The model is an
  explicit store: a memory from addresses to bytes, together with a ghost log of every
  address written, in program order. The log is not program data; it only records the
  stores so that frame properties can speak about writes and not merely about values.
  Addresses are natural numbers: an object the caller may pass never wraps around the
  end of the address space.
\<close>

type_synonym byte = "8 word"
type_synonym addr = nat

record state =
  mem :: "addr \<Rightarrow> byte"
  wlog :: "addr list"

text \<open>
  The byte order of the host decides which byte of an integer object sits at the lowest
  address. The source never tests it, so it is a parameter of every load and store.
\<close>

datatype byte_order = Little_endian | Big_endian

text \<open>The value whose most significant byte is the first argument.\<close>

definition cat16 :: "byte \<Rightarrow> byte \<Rightarrow> 16 word" where
  "cat16 hi lo = push_bit 8 (ucast hi) OR ucast lo"

definition cat32 :: "byte \<Rightarrow> byte \<Rightarrow> byte \<Rightarrow> byte \<Rightarrow> 32 word" where
  "cat32 b3 b2 b1 b0 =
     push_bit 24 (ucast b3) OR push_bit 16 (ucast b2) OR push_bit 8 (ucast b1) OR ucast b0"

definition store8 :: "addr \<Rightarrow> byte \<Rightarrow> state \<Rightarrow> state" where
  "store8 a v s = s\<lparr>mem := (mem s)(a := v), wlog := wlog s @ [a]\<rparr>"

text \<open>Reading a \<^verbatim>\<open>uint16_t\<close> / \<^verbatim>\<open>uint32_t\<close> object at address \<open>a\<close>.\<close>

definition load16 :: "byte_order \<Rightarrow> state \<Rightarrow> addr \<Rightarrow> 16 word" where
  "load16 bo s a =
     (case bo of
        Little_endian \<Rightarrow> cat16 (mem s (a + 1)) (mem s a)
      | Big_endian \<Rightarrow> cat16 (mem s a) (mem s (a + 1)))"

definition load32 :: "byte_order \<Rightarrow> state \<Rightarrow> addr \<Rightarrow> 32 word" where
  "load32 bo s a =
     (case bo of
        Little_endian \<Rightarrow> cat32 (mem s (a + 3)) (mem s (a + 2)) (mem s (a + 1)) (mem s a)
      | Big_endian \<Rightarrow> cat32 (mem s a) (mem s (a + 1)) (mem s (a + 2)) (mem s (a + 3)))"

text \<open>Writing one: the bytes of the value go to ascending addresses.\<close>

definition store16 :: "byte_order \<Rightarrow> addr \<Rightarrow> 16 word \<Rightarrow> state \<Rightarrow> state" where
  "store16 bo a v s =
     (case bo of
        Little_endian \<Rightarrow> store8 (a + 1) (ucast (drop_bit 8 v)) (store8 a (ucast v) s)
      | Big_endian \<Rightarrow> store8 (a + 1) (ucast v) (store8 a (ucast (drop_bit 8 v)) s))"

definition store32 :: "byte_order \<Rightarrow> addr \<Rightarrow> 32 word \<Rightarrow> state \<Rightarrow> state" where
  "store32 bo a v s =
     (case bo of
        Little_endian \<Rightarrow>
          store8 (a + 3) (ucast (drop_bit 24 v))
            (store8 (a + 2) (ucast (drop_bit 16 v))
              (store8 (a + 1) (ucast (drop_bit 8 v))
                (store8 a (ucast v) s)))
      | Big_endian \<Rightarrow>
          store8 (a + 3) (ucast v)
            (store8 (a + 2) (ucast (drop_bit 8 v))
              (store8 (a + 1) (ucast (drop_bit 16 v))
                (store8 a (ucast (drop_bit 24 v)) s))))"

text \<open>A run of bytes: written from a list, read back as a list.\<close>

primrec store_bytes :: "addr \<Rightarrow> byte list \<Rightarrow> state \<Rightarrow> state" where
  "store_bytes a [] s = s"
| "store_bytes a (b # bs) s = store_bytes (a + 1) bs (store8 a b s)"

primrec load_bytes :: "state \<Rightarrow> addr \<Rightarrow> nat \<Rightarrow> byte list" where
  "load_bytes s a 0 = []"
| "load_bytes s a (Suc n) = mem s a # load_bytes s (a + 1) n"

subsection \<open>The structure\<close>

text \<open>
  \<^verbatim>\<open>
  typedef struct _GUID {
      uint32_t Data1;
      uint16_t Data2;
      uint16_t Data3;
      uint8_t  Data4[8];
  } GUID;
  \<close>
  The cast \<^verbatim>\<open>*(uuid_t*)pGuid\<close> overlays the sixteen bytes of a \<^verbatim>\<open>uuid_t\<close> on this
  structure. The offsets below are the ones that overlay presumes: every field at the end
  of the previous one, no padding.
\<close>

record GUID =
  Data1 :: "32 word"
  Data2 :: "16 word"
  Data3 :: "16 word"
  Data4 :: "byte list"

definition Data1_off :: nat where "Data1_off = 0"
definition Data2_off :: nat where "Data2_off = 4"
definition Data3_off :: nat where "Data3_off = 6"
definition Data4_off :: nat where "Data4_off = 8"
definition sizeof_GUID :: nat where "sizeof_GUID = 16"

text \<open>
  The field values of the structure at \<open>p\<close>, the integer fields read in the byte order
  \<open>bo\<close>. With \<open>Little_endian\<close> this is the layout consumers of a GUID expect; with
  \<open>Big_endian\<close> it is the RFC 4122 reading of the same sixteen bytes.
\<close>

definition read_GUID :: "byte_order \<Rightarrow> state \<Rightarrow> addr \<Rightarrow> GUID" where
  "read_GUID bo s p =
     \<lparr>Data1 = load32 bo s (p + Data1_off),
      Data2 = load16 bo s (p + Data2_off),
      Data3 = load16 bo s (p + Data3_off),
      Data4 = load_bytes s (p + Data4_off) 8\<rparr>"

section \<open>The operations\<close>

text \<open>
  Modelled from the spec: \<^verbatim>\<open>SWAP16\<close> is defined in \<^verbatim>\<open>pal_endian.h\<close>, which is not
  among the sources. The spec says of it that it reverses the byte order of the unsigned
  16-bit integer it is given (byte positions 0 and 1 change places).
\<close>

definition SWAP16 :: "16 word \<Rightarrow> 16 word" where
  "SWAP16 x = drop_bit 8 x OR push_bit 8 x"

text \<open>
  Modelled from the spec: \<^verbatim>\<open>SWAP32\<close> is defined in \<^verbatim>\<open>pal_endian.h\<close>, which is not
  among the sources. The spec says of it that it reverses the byte order of the unsigned
  32-bit integer it is given (byte positions 0 and 3, and 1 and 2, change places).
\<close>

definition SWAP32 :: "32 word \<Rightarrow> 32 word" where
  "SWAP32 x =
     drop_bit 24 x OR (drop_bit 8 x AND 0x0000FF00) OR
     push_bit 8 (x AND 0x0000FF00) OR push_bit 24 x"

text \<open>
  \<^verbatim>\<open>uuid_generate_random\<close> belongs to libuuid. It writes the sixteen bytes of a fresh
  random UUID, in RFC 4122 order, to its argument and returns nothing. The bytes it drew
  are the parameter \<open>u\<close>; a \<^verbatim>\<open>uuid_t\<close> is \<^verbatim>\<open>unsigned char[16]\<close>, so \<open>length u = 16\<close>
  for every real call.
\<close>

definition uuid_generate_random :: "byte list \<Rightarrow> addr \<Rightarrow> state \<Rightarrow> state" where
  "uuid_generate_random u out s = store_bytes out u s"

text \<open>
  Lines 27 to 29, the three assignments after the library call:
  \<^verbatim>\<open>
  pGuid->Data1 = SWAP32(pGuid->Data1);
  pGuid->Data2 = SWAP16(pGuid->Data2);
  pGuid->Data3 = SWAP16(pGuid->Data3);
  \<close>
\<close>

definition swap_Data123 :: "byte_order \<Rightarrow> addr \<Rightarrow> state \<Rightarrow> state" where
  "swap_Data123 bo pGuid s1 =
     (let s2 = store32 bo (pGuid + Data1_off) (SWAP32 (load32 bo s1 (pGuid + Data1_off))) s1;
          s3 = store16 bo (pGuid + Data2_off) (SWAP16 (load16 bo s2 (pGuid + Data2_off))) s2;
          s4 = store16 bo (pGuid + Data3_off) (SWAP16 (load16 bo s3 (pGuid + Data3_off))) s3
      in s4)"

text \<open>The body of the function when \<^verbatim>\<open>HAVE_LIBUUID_H\<close> holds. It returns \<^verbatim>\<open>void\<close>.\<close>

definition CoreLibNative_CreateGuid :: "byte_order \<Rightarrow> byte list \<Rightarrow> addr \<Rightarrow> state \<Rightarrow> state" where
  "CoreLibNative_CreateGuid bo u pGuid s =
     swap_Data123 bo pGuid (uuid_generate_random u pGuid s)"

text \<open>The sixteen bytes the caller finds in its buffer afterwards.\<close>

definition created_bytes :: "byte_order \<Rightarrow> byte list \<Rightarrow> addr \<Rightarrow> state \<Rightarrow> byte list" where
  "created_bytes bo u pGuid s =
     load_bytes (CoreLibNative_CreateGuid bo u pGuid s) pGuid sizeof_GUID"

text \<open>
  The preprocessor conditional around the body:
  \<^verbatim>\<open>
  #if HAVE_LIBUUID_H
      ...
  #else
  #error Don't know how to generate UUID on this platform
  #endif
  \<close>
  Compiling the file either stops at the \<^verbatim>\<open>#error\<close> directive or yields the function.
\<close>

datatype build_error = Dont_know_how_to_generate_UUID

definition compile_pal_guid ::
  "bool \<Rightarrow> build_error + (byte_order \<Rightarrow> byte list \<Rightarrow> addr \<Rightarrow> state \<Rightarrow> state)" where
  "compile_pal_guid HAVE_LIBUUID_H =
     (if HAVE_LIBUUID_H then Inr CoreLibNative_CreateGuid
      else Inl Dont_know_how_to_generate_UUID)"

section \<open>The transformation as the specification words it\<close>

text \<open>
  The specification describes the fix-up by byte positions in the buffer, not by integer
  values: in the first field positions 0 and 3 and positions 1 and 2 change places, in
  each of the two 16-bit fields positions 0 and 1 change places, the last eight bytes
  stay. These definitions follow those words; they are compared with the code below.
\<close>

definition swap_positions :: "addr \<Rightarrow> addr \<Rightarrow> (addr \<Rightarrow> byte) \<Rightarrow> (addr \<Rightarrow> byte)" where
  "swap_positions a b m = m(a := m b, b := m a)"

definition reverse_field_bytes :: "addr \<Rightarrow> (addr \<Rightarrow> byte) \<Rightarrow> (addr \<Rightarrow> byte)" where
  "reverse_field_bytes p m =
     swap_positions (p + 6) (p + 7)
       (swap_positions (p + 4) (p + 5)
         (swap_positions (p + 1) (p + 2)
           (swap_positions p (p + 3) m)))"

text \<open>The same as a map on the sixteen positions: where output position \<open>i\<close> comes from.\<close>

definition guid_byte_perm :: "nat \<Rightarrow> nat" where
  "guid_byte_perm i =
     (if i = 0 then 3 else if i = 1 then 2 else if i = 2 then 1 else if i = 3 then 0
      else if i = 4 then 5 else if i = 5 then 4
      else if i = 6 then 7 else if i = 7 then 6
      else i)"

section \<open>Sample data\<close>

text \<open>
  A version 4 UUID in RFC 4122 byte order (version nibble 4 in byte 6, variant bits 10 in
  byte 8), a second one that differs from it in the first byte, and a memory that holds
  AA everywhere and has seen no write. The closed instances of the theorems use them.
\<close>

definition sample_uuid :: "byte list" where
  "sample_uuid = [0x12, 0x34, 0x56, 0x78, 0x9A, 0xBC, 0x4D, 0xEF,
                  0xA1, 0x02, 0x03, 0x04, 0x05, 0x06, 0x07, 0x08]"

definition other_uuid :: "byte list" where
  "other_uuid = [0x13, 0x34, 0x56, 0x78, 0x9A, 0xBC, 0x4D, 0xEF,
                 0xA1, 0x02, 0x03, 0x04, 0x05, 0x06, 0x07, 0x08]"

definition sample_state :: state where
  "sample_state = \<lparr>mem = \<lambda>a. 0xAA, wlog = []\<rparr>"

section \<open>Bytes of words\<close>

lemma byte_bit_high: "8 \<le> n \<Longrightarrow> \<not> bit (b :: byte) n"
  using bit_imp_le_length [of b n] by auto

lemma cat16_lo: "ucast (cat16 hi lo) = lo"
  unfolding cat16_def
  by (rule bit_word_eqI) (auto simp: bit_simps byte_bit_high)

lemma cat16_hi: "ucast (drop_bit 8 (cat16 hi lo)) = hi"
  unfolding cat16_def
  by (rule bit_word_eqI) (auto simp: bit_simps byte_bit_high)

lemma cat32_byte0: "ucast (cat32 b3 b2 b1 b0) = b0"
  unfolding cat32_def
  by (rule bit_word_eqI) (auto simp: bit_simps byte_bit_high)

lemma cat32_byte1: "ucast (drop_bit 8 (cat32 b3 b2 b1 b0)) = b1"
  unfolding cat32_def
  by (rule bit_word_eqI) (auto simp: bit_simps byte_bit_high)

lemma cat32_byte2: "ucast (drop_bit 16 (cat32 b3 b2 b1 b0)) = b2"
  unfolding cat32_def
  by (rule bit_word_eqI) (auto simp: bit_simps byte_bit_high)

lemma cat32_byte3: "ucast (drop_bit 24 (cat32 b3 b2 b1 b0)) = b3"
  unfolding cat32_def
  by (rule bit_word_eqI) (auto simp: bit_simps byte_bit_high)

lemmas cat_bytes = cat16_lo cat16_hi cat32_byte0 cat32_byte1 cat32_byte2 cat32_byte3

text \<open>The two macros reverse the bytes of a value.\<close>

lemma SWAP16_lo: "(ucast (SWAP16 x) :: byte) = ucast (drop_bit 8 x)"
  unfolding SWAP16_def
  by (rule bit_word_eqI) (auto simp: bit_simps)

lemma SWAP16_hi: "(ucast (drop_bit 8 (SWAP16 x)) :: byte) = ucast x"
  unfolding SWAP16_def
  by (rule bit_word_eqI) (auto simp: bit_simps)

lemma mask_FF00: "(0x0000FF00 :: 32 word) = push_bit 8 (mask 8)"
  by (simp add: mask_eq_exp_minus_1)

lemma SWAP32_byte0: "(ucast (SWAP32 x) :: byte) = ucast (drop_bit 24 x)"
  unfolding SWAP32_def mask_FF00
  by (rule bit_word_eqI) (auto simp: bit_simps)

lemma SWAP32_byte1: "(ucast (drop_bit 8 (SWAP32 x)) :: byte) = ucast (drop_bit 16 x)"
  unfolding SWAP32_def mask_FF00
  by (rule bit_word_eqI) (auto simp: bit_simps)

lemma SWAP32_byte2: "(ucast (drop_bit 16 (SWAP32 x)) :: byte) = ucast (drop_bit 8 x)"
  unfolding SWAP32_def mask_FF00
  by (rule bit_word_eqI) (auto simp: bit_simps)

lemma SWAP32_byte3: "(ucast (drop_bit 24 (SWAP32 x)) :: byte) = ucast x"
  unfolding SWAP32_def mask_FF00
  by (rule bit_word_eqI) (auto simp: bit_simps)

lemmas SWAP_bytes = SWAP16_lo SWAP16_hi SWAP32_byte0 SWAP32_byte1 SWAP32_byte2 SWAP32_byte3

text \<open>The top four bits of a 16-bit value are the top four bits of its high byte.\<close>

lemma byte_bit_lt: "bit (b :: byte) n \<Longrightarrow> n < 8"
  using bit_imp_le_length [of b n] by auto

lemma cat16_top_nibble: "drop_bit 12 (cat16 hi lo) = ucast (drop_bit 4 hi)"
  unfolding cat16_def
  by (rule bit_word_eqI) (auto simp: bit_simps dest: byte_bit_lt)

section \<open>What the code does to the state\<close>

lemmas GUID_layout = Data1_off_def Data2_off_def Data3_off_def Data4_off_def sizeof_GUID_def

lemma list16:
  "length (u :: 'a list) = 16 \<Longrightarrow>
   \<exists>b0 b1 b2 b3 b4 b5 b6 b7 b8 b9 b10 b11 b12 b13 b14 b15.
     u = [b0, b1, b2, b3, b4, b5, b6, b7, b8, b9, b10, b11, b12, b13, b14, b15]"
  by (auto simp: eval_nat_numeral length_Suc_conv)

lemma load_bytes_numeral:
  "load_bytes s a (numeral k) = mem s a # load_bytes s (a + 1) (pred_numeral k)"
  by (simp add: numeral_eq_Suc)

lemma load_bytes_8:
  "load_bytes s a 8 =
     [mem s a, mem s (a + 1), mem s (a + 2), mem s (a + 3),
      mem s (a + 4), mem s (a + 5), mem s (a + 6), mem s (a + 7)]"
  by (simp add: load_bytes_numeral eval_nat_numeral)

lemma load_bytes_16:
  "load_bytes s a 16 =
     [mem s a, mem s (a + 1), mem s (a + 2), mem s (a + 3),
      mem s (a + 4), mem s (a + 5), mem s (a + 6), mem s (a + 7),
      mem s (a + 8), mem s (a + 9), mem s (a + 10), mem s (a + 11),
      mem s (a + 12), mem s (a + 13), mem s (a + 14), mem s (a + 15)]"
  by (simp add: load_bytes_numeral eval_nat_numeral)

text \<open>
  The three assignments, on either host: the eight bytes of the integer fields change
  places pairwise, and eight addresses are written, all of them below \<open>p + 8\<close>.
\<close>

lemma swap_Data123_state:
  "swap_Data123 bo p s =
     s\<lparr>mem := (mem s)
          (p := mem s (p + 3), p + 1 := mem s (p + 2), p + 2 := mem s (p + 1), p + 3 := mem s p,
           p + 4 := mem s (p + 5), p + 5 := mem s (p + 4),
           p + 6 := mem s (p + 7), p + 7 := mem s (p + 6)),
       wlog := wlog s @ [p, p + 1, p + 2, p + 3, p + 4, p + 5, p + 6, p + 7]\<rparr>"
  by (cases bo)
     (simp_all add: swap_Data123_def store32_def store16_def load32_def load16_def store8_def
        GUID_layout cat_bytes SWAP_bytes Let_def add.commute)

lemma uuid_generate_random_16:
  "uuid_generate_random [b0, b1, b2, b3, b4, b5, b6, b7, b8, b9, b10, b11, b12, b13, b14, b15] p s =
     s\<lparr>mem := (mem s)
          (p := b0, p + 1 := b1, p + 2 := b2, p + 3 := b3, p + 4 := b4, p + 5 := b5,
           p + 6 := b6, p + 7 := b7, p + 8 := b8, p + 9 := b9, p + 10 := b10, p + 11 := b11,
           p + 12 := b12, p + 13 := b13, p + 14 := b14, p + 15 := b15),
       wlog := wlog s @ [p, p + 1, p + 2, p + 3, p + 4, p + 5, p + 6, p + 7,
                         p + 8, p + 9, p + 10, p + 11, p + 12, p + 13, p + 14, p + 15]\<rparr>"
  by (simp add: uuid_generate_random_def store8_def eval_nat_numeral)

lemma created_state:
  "CoreLibNative_CreateGuid bo
       [b0, b1, b2, b3, b4, b5, b6, b7, b8, b9, b10, b11, b12, b13, b14, b15] p s =
     s\<lparr>mem := (mem s)
          (p := b3, p + 1 := b2, p + 2 := b1, p + 3 := b0, p + 4 := b5, p + 5 := b4,
           p + 6 := b7, p + 7 := b6, p + 8 := b8, p + 9 := b9, p + 10 := b10, p + 11 := b11,
           p + 12 := b12, p + 13 := b13, p + 14 := b14, p + 15 := b15),
       wlog := wlog s @ [p, p + 1, p + 2, p + 3, p + 4, p + 5, p + 6, p + 7,
                         p + 8, p + 9, p + 10, p + 11, p + 12, p + 13, p + 14, p + 15] @
                        [p, p + 1, p + 2, p + 3, p + 4, p + 5, p + 6, p + 7]\<rparr>"
  unfolding CoreLibNative_CreateGuid_def uuid_generate_random_16 swap_Data123_state
  by (simp add: fun_eq_iff)

lemma created_bytes_16:
  "created_bytes bo [b0, b1, b2, b3, b4, b5, b6, b7, b8, b9, b10, b11, b12, b13, b14, b15] p s =
     [b3, b2, b1, b0, b5, b4, b7, b6, b8, b9, b10, b11, b12, b13, b14, b15]"
  unfolding created_bytes_def created_state sizeof_GUID_def load_bytes_16
  by simp

lemma list16E:
  assumes "length (u :: 'a list) = 16"
  obtains b0 b1 b2 b3 b4 b5 b6 b7 b8 b9 b10 b11 b12 b13 b14 b15
  where "u = [b0, b1, b2, b3, b4, b5, b6, b7, b8, b9, b10, b11, b12, b13, b14, b15]"
  using list16 [OF assms] by (elim exE)

lemma swap_Data123_wlog:
  "wlog (swap_Data123 bo p s) = wlog s @ [p, p + 1, p + 2, p + 3, p + 4, p + 5, p + 6, p + 7]"
  unfolding swap_Data123_state by simp

lemma swap_Data123_mem:
  "mem (swap_Data123 bo p s) = (mem s)
          (p := mem s (p + 3), p + 1 := mem s (p + 2), p + 2 := mem s (p + 1), p + 3 := mem s p,
           p + 4 := mem s (p + 5), p + 5 := mem s (p + 4),
           p + 6 := mem s (p + 7), p + 7 := mem s (p + 6))"
  unfolding swap_Data123_state by simp

lemma swap_Data123_Data4:
  "load_bytes (swap_Data123 bo p s) (p + 8) 8 = load_bytes s (p + 8) 8"
  unfolding load_bytes_8 swap_Data123_mem by simp

lemma created_wlog:
  "wlog (CoreLibNative_CreateGuid bo
       [b0, b1, b2, b3, b4, b5, b6, b7, b8, b9, b10, b11, b12, b13, b14, b15] p s) =
   wlog s @ ([p, p + 1, p + 2, p + 3, p + 4, p + 5, p + 6, p + 7,
         p + 8, p + 9, p + 10, p + 11, p + 12, p + 13, p + 14, p + 15] @
        [p, p + 1, p + 2, p + 3, p + 4, p + 5, p + 6, p + 7])"
  unfolding created_state by simp

text \<open>Where the logged addresses lie.\<close>

lemma fixup_writes_below_Data4:
  "set [p :: addr, p + 1, p + 2, p + 3, p + 4, p + 5, p + 6, p + 7] \<inter> {p + 8 ..< p + 16} = {}"
  by auto

lemma fixup_writes_in_buffer:
  "set [p :: addr, p + 1, p + 2, p + 3, p + 4, p + 5, p + 6, p + 7] \<subseteq> {p ..< p + 16}"
  by auto

lemma all_writes_in_buffer:
  "set ([p :: addr, p + 1, p + 2, p + 3, p + 4, p + 5, p + 6, p + 7,
         p + 8, p + 9, p + 10, p + 11, p + 12, p + 13, p + 14, p + 15] @
        [p, p + 1, p + 2, p + 3, p + 4, p + 5, p + 6, p + 7]) \<subseteq> {p ..< p + 16}"
  by auto

text \<open>The position map is its own inverse on the sixteen positions.\<close>

lemma guid_byte_perm_bij: "bij_betw guid_byte_perm {..<16} {..<16}"
  by (rule bij_betw_byWitness [where f' = guid_byte_perm])
     (auto simp: guid_byte_perm_def)

lemma upt_16: "[0..<16] = [0, 1, 2, 3, 4, 5, 6, 7, 8, 9, 10, 11, 12, 13, 14, 15]"
  by (simp add: upt_rec)

lemma length_sample_uuid: "length sample_uuid = 16"
  by (simp add: sample_uuid_def)

lemma length_other_uuid: "length other_uuid = 16"
  by (simp add: other_uuid_def)

section \<open>The claims\<close>

text \<open>
  In every theorem \<open>u\<close> is what the random source wrote, \<open>bo\<close> the byte order of the
  host, \<open>pGuid\<close> the caller's pointer and \<open>s\<close> the state before the call.
\<close>

text \<open>
  C1. For every sixteen bytes the random source delivers, the buffer afterwards holds in
  its first four positions the first four input bytes in reverse order, in positions 4-5
  the input bytes 4-5 reversed, in positions 6-7 the input bytes 6-7 reversed, and in
  positions 8-15 the input bytes 8-15 as they were.
\<close>

theorem created_bytes_fieldwise:
  assumes "length u = 16"
  shows "take 4 (created_bytes bo u pGuid s) = rev (take 4 u) \<and>
         take 2 (drop 4 (created_bytes bo u pGuid s)) = rev (take 2 (drop 4 u)) \<and>
         take 2 (drop 6 (created_bytes bo u pGuid s)) = rev (take 2 (drop 6 u)) \<and>
         drop 8 (created_bytes bo u pGuid s) = drop 8 u \<and>
         length (created_bytes bo u pGuid s) = 16"
proof -
  from assms obtain b0 b1 b2 b3 b4 b5 b6 b7 b8 b9 b10 b11 b12 b13 b14 b15
    where u: "u = [b0, b1, b2, b3, b4, b5, b6, b7, b8, b9, b10, b11, b12, b13, b14, b15]"
    by (rule list16E)
  show ?thesis
    unfolding u created_bytes_16 by simp
qed

theorem created_bytes_fieldwise_witness:
  "length sample_uuid = 16 \<and>
   take 4 (created_bytes Big_endian sample_uuid 4096 sample_state) = [0x78, 0x56, 0x34, 0x12] \<and>
   take 2 (drop 4 (created_bytes Big_endian sample_uuid 4096 sample_state)) = [0xBC, 0x9A] \<and>
   take 2 (drop 6 (created_bytes Big_endian sample_uuid 4096 sample_state)) = [0xEF, 0x4D] \<and>
   drop 8 (created_bytes Big_endian sample_uuid 4096 sample_state) =
     [0xA1, 0x02, 0x03, 0x04, 0x05, 0x06, 0x07, 0x08]"
  using created_bytes_fieldwise [OF length_sample_uuid, of Big_endian 4096 sample_state]
  by (simp add: sample_uuid_def)

text \<open>
  C2. Reading the buffer after the call with the little-endian field layout (Data1 a
  little-endian 32-bit integer at bytes 0-3, Data2 and Data3 little-endian 16-bit integers
  at bytes 4-5 and 6-7, Data4 the raw bytes 8-15) gives the same four field values as
  reading what the random source wrote with the big-endian layout of RFC 4122. In
  particular the version (the top four bits of Data3, from the top four bits of source
  byte 6) and the variant (in the first byte of Data4, source byte 8) are kept.
\<close>

theorem field_values_preserved:
  assumes "length u = 16"
  shows "read_GUID Little_endian (CoreLibNative_CreateGuid bo u pGuid s) pGuid =
           read_GUID Big_endian (uuid_generate_random u pGuid s) pGuid \<and>
         read_GUID Little_endian (CoreLibNative_CreateGuid bo u pGuid s) pGuid =
           \<lparr>Data1 = cat32 (u ! 0) (u ! 1) (u ! 2) (u ! 3),
            Data2 = cat16 (u ! 4) (u ! 5),
            Data3 = cat16 (u ! 6) (u ! 7),
            Data4 = drop 8 u\<rparr> \<and>
         drop_bit 12 (Data3 (read_GUID Little_endian
             (CoreLibNative_CreateGuid bo u pGuid s) pGuid)) =
           ucast (drop_bit 4 (u ! 6)) \<and>
         Data4 (read_GUID Little_endian (CoreLibNative_CreateGuid bo u pGuid s) pGuid) ! 0 =
           u ! 8"
proof -
  from assms obtain b0 b1 b2 b3 b4 b5 b6 b7 b8 b9 b10 b11 b12 b13 b14 b15
    where u: "u = [b0, b1, b2, b3, b4, b5, b6, b7, b8, b9, b10, b11, b12, b13, b14, b15]"
    by (rule list16E)
  show ?thesis
    unfolding u created_state uuid_generate_random_16 read_GUID_def load_bytes_8
    by (simp add: load32_def load16_def GUID_layout cat16_top_nibble)
qed

theorem field_values_preserved_witness:
  "length sample_uuid = 16 \<and>
   read_GUID Little_endian
       (CoreLibNative_CreateGuid Big_endian sample_uuid 4096 sample_state) 4096 =
     \<lparr>Data1 = 0x12345678, Data2 = 0x9ABC, Data3 = 0x4DEF,
      Data4 = [0xA1, 0x02, 0x03, 0x04, 0x05, 0x06, 0x07, 0x08]\<rparr> \<and>
   drop_bit 12 (Data3 (read_GUID Little_endian
     (CoreLibNative_CreateGuid Big_endian sample_uuid 4096 sample_state) 4096)) = 4"
proof -
  note fields = field_values_preserved [OF length_sample_uuid, of Big_endian 4096 sample_state]
  have "read_GUID Little_endian
      (CoreLibNative_CreateGuid Big_endian sample_uuid 4096 sample_state) 4096 =
     \<lparr>Data1 = 0x12345678, Data2 = 0x9ABC, Data3 = 0x4DEF,
      Data4 = [0xA1, 0x02, 0x03, 0x04, 0x05, 0x06, 0x07, 0x08]\<rparr>"
    unfolding fields [THEN conjunct2, THEN conjunct1]
    by (simp add: sample_uuid_def cat32_def cat16_def)
  moreover have "drop_bit 12 (Data3 (read_GUID Little_endian
     (CoreLibNative_CreateGuid Big_endian sample_uuid 4096 sample_state) 4096)) = 4"
    unfolding fields [THEN conjunct2, THEN conjunct2, THEN conjunct1]
    by (simp add: sample_uuid_def)
  ultimately show ?thesis using length_sample_uuid by blast
qed

text \<open>
  C3. Data4 is left alone. After the call bytes 8-15 of the buffer are the bytes the
  random source wrote there; the three assignments keep bytes 8-15 of whatever state
  \<open>s1\<close> they start from; and none of the addresses they write (the part of the log added
  after the random source returned) is one of the positions 8-15.
\<close>

theorem Data4_untouched:
  assumes "length u = 16"
  shows "load_bytes (CoreLibNative_CreateGuid bo u pGuid s) (pGuid + Data4_off) 8 = drop 8 u \<and>
         load_bytes (swap_Data123 bo pGuid s1) (pGuid + Data4_off) 8 =
           load_bytes s1 (pGuid + Data4_off) 8 \<and>
         (\<exists>ws. wlog (swap_Data123 bo pGuid s1) = wlog s1 @ ws \<and>
               set ws \<inter> {pGuid + Data4_off ..< pGuid + sizeof_GUID} = {}) \<and>
         (\<exists>ws. wlog (CoreLibNative_CreateGuid bo u pGuid s) =
                 wlog (uuid_generate_random u pGuid s) @ ws \<and>
               set ws \<inter> {pGuid + Data4_off ..< pGuid + sizeof_GUID} = {})"
proof -
  from assms obtain b0 b1 b2 b3 b4 b5 b6 b7 b8 b9 b10 b11 b12 b13 b14 b15
    where u: "u = [b0, b1, b2, b3, b4, b5, b6, b7, b8, b9, b10, b11, b12, b13, b14, b15]"
    by (rule list16E)
  have tail: "load_bytes (CoreLibNative_CreateGuid bo u pGuid s) (pGuid + Data4_off) 8 = drop 8 u"
    unfolding u created_state load_bytes_8 Data4_off_def by simp
  have kept: "load_bytes (swap_Data123 bo pGuid s1) (pGuid + Data4_off) 8 =
      load_bytes s1 (pGuid + Data4_off) 8"
    unfolding Data4_off_def by (rule swap_Data123_Data4)
  have log: "\<exists>ws. wlog (swap_Data123 bo pGuid t) = wlog t @ ws \<and>
      set ws \<inter> {pGuid + Data4_off ..< pGuid + sizeof_GUID} = {}" for t
    unfolding Data4_off_def sizeof_GUID_def
    using swap_Data123_wlog [of bo pGuid t] fixup_writes_below_Data4 [of pGuid] by blast
  from tail kept log [of s1] log [of "uuid_generate_random u pGuid s"]
  show ?thesis unfolding CoreLibNative_CreateGuid_def by blast
qed

theorem Data4_untouched_witness:
  "length sample_uuid = 16 \<and>
   load_bytes (CoreLibNative_CreateGuid Little_endian sample_uuid 4096 sample_state)
     (4096 + Data4_off) 8 = [0xA1, 0x02, 0x03, 0x04, 0x05, 0x06, 0x07, 0x08]"
  using Data4_untouched [OF length_sample_uuid, of Little_endian 4096 sample_state]
  by (simp add: sample_uuid_def)

text \<open>
  C4. The byte-order reversal is an involution. Running the three assignments twice
  restores every byte of memory; and feeding the sixteen bytes one call produced to a
  second call as its random input gives back the original sixteen bytes, wherever the
  second buffer lies and whichever byte order the second host has.
\<close>

theorem fixup_involution:
  assumes "length u = 16"
  shows "mem (swap_Data123 bo pGuid (swap_Data123 bo pGuid s)) = mem s \<and>
         created_bytes bo' (created_bytes bo u pGuid s) q t = u"
proof -
  from assms obtain b0 b1 b2 b3 b4 b5 b6 b7 b8 b9 b10 b11 b12 b13 b14 b15
    where u: "u = [b0, b1, b2, b3, b4, b5, b6, b7, b8, b9, b10, b11, b12, b13, b14, b15]"
    by (rule list16E)
  have "mem (swap_Data123 bo pGuid (swap_Data123 bo pGuid s)) = mem s"
    unfolding swap_Data123_mem by (simp add: fun_eq_iff)
  moreover have "created_bytes bo' (created_bytes bo u pGuid s) q t = u"
    unfolding u created_bytes_16 ..
  ultimately show ?thesis ..
qed

theorem fixup_involution_witness:
  "length sample_uuid = 16 \<and>
   created_bytes Big_endian (created_bytes Little_endian sample_uuid 4096 sample_state)
     0 sample_state = sample_uuid"
  using fixup_involution [OF length_sample_uuid,
      of Little_endian 4096 sample_state Big_endian 0 sample_state]
  by (simp add: sample_uuid_def)

text \<open>
  C5. On the input 01 02 03 04, 05 06, 07 08, 09 0A 0B 0C 0D 0E 0F 10 (hexadecimal) in
  place of the random source, the buffer holds 04 03 02 01, 06 05, 08 07,
  09 0A 0B 0C 0D 0E 0F 10 afterwards: on either host byte order, at any address, whatever
  the memory held before.
\<close>

theorem concrete_example:
  "created_bytes bo
     [0x01, 0x02, 0x03, 0x04, 0x05, 0x06, 0x07, 0x08,
      0x09, 0x0A, 0x0B, 0x0C, 0x0D, 0x0E, 0x0F, 0x10] pGuid s =
     [0x04, 0x03, 0x02, 0x01, 0x06, 0x05, 0x08, 0x07,
      0x09, 0x0A, 0x0B, 0x0C, 0x0D, 0x0E, 0x0F, 0x10]"
  by (rule created_bytes_16)

text \<open>
  C6. Without \<^verbatim>\<open>HAVE_LIBUUID_H\<close> the file does not compile: the failure is the
  \<^verbatim>\<open>#error\<close> directive, at build time, and no function exists that could run. With it,
  the function that is built has no error result; every call is the random-source call
  followed by the three assignments, and the buffer afterwards is determined by the
  random bytes alone (never by what the memory held before, so it is never left zero or
  stale).
\<close>

theorem build_or_generate:
  assumes "length u = 16"
  shows "compile_pal_guid False = Inl Dont_know_how_to_generate_UUID \<and>
         (\<exists>f. compile_pal_guid True = Inr f \<and>
              f bo u pGuid s = swap_Data123 bo pGuid (uuid_generate_random u pGuid s) \<and>
              load_bytes (f bo u pGuid s) pGuid sizeof_GUID =
                [u ! 3, u ! 2, u ! 1, u ! 0, u ! 5, u ! 4, u ! 7, u ! 6] @ drop 8 u)"
proof -
  from assms obtain b0 b1 b2 b3 b4 b5 b6 b7 b8 b9 b10 b11 b12 b13 b14 b15
    where u: "u = [b0, b1, b2, b3, b4, b5, b6, b7, b8, b9, b10, b11, b12, b13, b14, b15]"
    by (rule list16E)
  have "load_bytes (CoreLibNative_CreateGuid bo u pGuid s) pGuid sizeof_GUID =
      [u ! 3, u ! 2, u ! 1, u ! 0, u ! 5, u ! 4, u ! 7, u ! 6] @ drop 8 u"
    using created_bytes_16 [of bo b0 b1 b2 b3 b4 b5 b6 b7 b8 b9 b10 b11 b12 b13 b14 b15 pGuid s]
    unfolding u created_bytes_def by simp
  then show ?thesis
    by (simp add: compile_pal_guid_def CoreLibNative_CreateGuid_def)
qed

theorem build_or_generate_witness:
  "length sample_uuid = 16 \<and>
   compile_pal_guid False = Inl Dont_know_how_to_generate_UUID \<and>
   (\<exists>f. compile_pal_guid True = Inr f \<and>
     load_bytes (f Little_endian sample_uuid 4096 sample_state) 4096 sizeof_GUID =
       [0x78, 0x56, 0x34, 0x12, 0xBC, 0x9A, 0xEF, 0x4D,
        0xA1, 0x02, 0x03, 0x04, 0x05, 0x06, 0x07, 0x08])"
  using build_or_generate [OF length_sample_uuid, of Little_endian 4096 sample_state]
    length_sample_uuid
  by (auto simp: sample_uuid_def)

text \<open>
  C7. Every address written during the call, and in particular every address written
  after the random source returned, lies inside the sixteen bytes at \<open>pGuid\<close>; every
  byte of memory outside them is what it was before the call. The state has no other
  component that could change.
\<close>

theorem writes_stay_in_buffer:
  assumes "length u = 16"
  shows "(\<exists>ws. wlog (CoreLibNative_CreateGuid bo u pGuid s) = wlog s @ ws \<and>
               set ws \<subseteq> {pGuid ..< pGuid + sizeof_GUID}) \<and>
         (\<exists>ws. wlog (CoreLibNative_CreateGuid bo u pGuid s) =
                 wlog (uuid_generate_random u pGuid s) @ ws \<and>
               set ws \<subseteq> {pGuid ..< pGuid + sizeof_GUID}) \<and>
         (\<forall>a. a < pGuid \<or> pGuid + sizeof_GUID \<le> a \<longrightarrow>
               mem (CoreLibNative_CreateGuid bo u pGuid s) a = mem s a)"
proof -
  from assms obtain b0 b1 b2 b3 b4 b5 b6 b7 b8 b9 b10 b11 b12 b13 b14 b15
    where u: "u = [b0, b1, b2, b3, b4, b5, b6, b7, b8, b9, b10, b11, b12, b13, b14, b15]"
    by (rule list16E)
  have whole: "\<exists>ws. wlog (CoreLibNative_CreateGuid bo u pGuid s) = wlog s @ ws \<and>
      set ws \<subseteq> {pGuid ..< pGuid + sizeof_GUID}"
    unfolding u sizeof_GUID_def
    using created_wlog [of bo _ _ _ _ _ _ _ _ _ _ _ _ _ _ _ _ pGuid s]
      all_writes_in_buffer [of pGuid]
    by blast
  have after: "\<exists>ws. wlog (CoreLibNative_CreateGuid bo u pGuid s) =
      wlog (uuid_generate_random u pGuid s) @ ws \<and> set ws \<subseteq> {pGuid ..< pGuid + sizeof_GUID}"
    unfolding CoreLibNative_CreateGuid_def sizeof_GUID_def
    using swap_Data123_wlog [of bo pGuid "uuid_generate_random u pGuid s"]
      fixup_writes_in_buffer [of pGuid] by blast
  have frame: "mem (CoreLibNative_CreateGuid bo u pGuid s) a = mem s a"
    if "a < pGuid \<or> pGuid + sizeof_GUID \<le> a" for a
    using that unfolding u created_state sizeof_GUID_def by auto
  from whole after frame show ?thesis by blast
qed

theorem writes_stay_in_buffer_witness:
  "length sample_uuid = 16 \<and>
   set (wlog (CoreLibNative_CreateGuid Little_endian sample_uuid 4096 sample_state))
     \<subseteq> {4096 ..< 4112} \<and>
   mem (CoreLibNative_CreateGuid Little_endian sample_uuid 4096 sample_state) 4095 = 0xAA \<and>
   mem (CoreLibNative_CreateGuid Little_endian sample_uuid 4096 sample_state) 4112 = 0xAA"
  using writes_stay_in_buffer [OF length_sample_uuid, of Little_endian 4096 sample_state]
    length_sample_uuid
  by (auto simp: sizeof_GUID_def sample_state_def)

text \<open>
  C8. The call permutes the sixteen byte positions: output position \<open>i\<close> holds the input
  byte at \<open>guid_byte_perm i\<close> (0 and 3, 1 and 2, 4 and 5, 6 and 7 exchanged, 8-15 fixed),
  and that map is a bijection on the positions. So the call is a bijection on 16-byte
  arrays: two random outputs give the same GUID only when they are equal, every 16-byte
  array is the GUID of some random output, and the byte values of the output are exactly
  the byte values of the input.
\<close>

theorem byte_permutation:
  assumes "length u = 16" and "length v = 16"
  shows "created_bytes bo u pGuid s = map (\<lambda>i. u ! guid_byte_perm i) [0..<16] \<and>
         bij_betw guid_byte_perm {..<16} {..<16} \<and>
         (created_bytes bo u pGuid s = created_bytes bo' v q t \<longleftrightarrow> u = v) \<and>
         (\<exists>w. length w = 16 \<and> created_bytes bo w pGuid s = u) \<and>
         set (created_bytes bo u pGuid s) = set u"
proof -
  from assms(1) obtain b0 b1 b2 b3 b4 b5 b6 b7 b8 b9 b10 b11 b12 b13 b14 b15
    where u: "u = [b0, b1, b2, b3, b4, b5, b6, b7, b8, b9, b10, b11, b12, b13, b14, b15]"
    by (rule list16E)
  from assms(2) obtain c0 c1 c2 c3 c4 c5 c6 c7 c8 c9 c10 c11 c12 c13 c14 c15
    where v: "v = [c0, c1, c2, c3, c4, c5, c6, c7, c8, c9, c10, c11, c12, c13, c14, c15]"
    by (rule list16E)
  have perm: "created_bytes bo u pGuid s = map (\<lambda>i. u ! guid_byte_perm i) [0..<16]"
    unfolding u created_bytes_16 upt_16 by (simp add: guid_byte_perm_def)
  have inj: "created_bytes bo u pGuid s = created_bytes bo' v q t \<longleftrightarrow> u = v"
    unfolding u v created_bytes_16 by auto
  have "length (created_bytes bo u pGuid s) = 16"
    unfolding u created_bytes_16 by simp
  moreover have "created_bytes bo (created_bytes bo u pGuid s) pGuid s = u"
    unfolding u created_bytes_16 ..
  ultimately have surj: "\<exists>w. length w = 16 \<and> created_bytes bo w pGuid s = u"
    by blast
  have vals: "set (created_bytes bo u pGuid s) = set u"
    unfolding u created_bytes_16 by auto
  from perm guid_byte_perm_bij inj surj vals show ?thesis by blast
qed

theorem byte_permutation_witness:
  "length sample_uuid = 16 \<and> length other_uuid = 16 \<and>
   created_bytes Little_endian sample_uuid 4096 sample_state \<noteq>
     created_bytes Big_endian other_uuid 0 sample_state \<and>
   set (created_bytes Little_endian sample_uuid 4096 sample_state) = set sample_uuid"
proof -
  have "sample_uuid \<noteq> other_uuid"
    by (simp add: sample_uuid_def other_uuid_def)
  with byte_permutation [OF length_sample_uuid length_other_uuid,
      of Little_endian 4096 sample_state Big_endian 0 sample_state]
    length_sample_uuid length_other_uuid
  show ?thesis by blast
qed

text \<open>
  C10. The code's formulation by integer values (load the field as a native integer,
  apply the swap macro to the value, store it back) does to memory exactly what the
  specification's formulation by byte positions does, for every memory and on either
  host byte order: for the three assignments together, for a single 32-bit field and for
  a single 16-bit field. The two hosts end in the same state.
\<close>

theorem reverse_field_bytes_refines:
  "mem (swap_Data123 bo pGuid s) = reverse_field_bytes pGuid (mem s) \<and>
   mem (store32 bo a (SWAP32 (load32 bo s a)) s) =
     swap_positions (a + 1) (a + 2) (swap_positions a (a + 3) (mem s)) \<and>
   mem (store16 bo a (SWAP16 (load16 bo s a)) s) = swap_positions a (a + 1) (mem s) \<and>
   swap_Data123 Little_endian pGuid s = swap_Data123 Big_endian pGuid s"
proof -
  have whole: "mem (swap_Data123 bo pGuid s) = reverse_field_bytes pGuid (mem s)"
    unfolding swap_Data123_mem reverse_field_bytes_def swap_positions_def
    by (simp add: fun_eq_iff)
  have f32: "mem (store32 bo a (SWAP32 (load32 bo s a)) s) =
     swap_positions (a + 1) (a + 2) (swap_positions a (a + 3) (mem s))"
    by (cases bo)
       (simp_all add: store32_def load32_def store8_def swap_positions_def
          cat_bytes SWAP_bytes fun_eq_iff)
  have f16: "mem (store16 bo a (SWAP16 (load16 bo s a)) s) = swap_positions a (a + 1) (mem s)"
    by (cases bo)
       (simp_all add: store16_def load16_def store8_def swap_positions_def
          cat_bytes SWAP_bytes fun_eq_iff)
  have hosts: "swap_Data123 Little_endian pGuid s = swap_Data123 Big_endian pGuid s"
    unfolding swap_Data123_state ..
  from whole f32 f16 hosts show ?thesis by blast
qed

end
